theory Spec2Isabelle
  imports Main
begin

section \<open>Data model\<close>

text \<open>
  The documents of the three Mongoose collections, restricted to the fields that the
  swap, like and mark-unavailable routes read or write.  Object ids are natural numbers.
  JavaScript numbers holding counters are unbounded integers.  The timestamps that
  Mongoose maintains by itself (\<open>createdAt\<close>, \<open>updatedAt\<close>) are not part of the records.
\<close>

type_synonym user_id = nat
type_synonym item_id = nat
type_synonym swap_id = nat

text \<open>models/User.js: \<open>points\<close> (default 100, schema \<open>min: 0\<close>), \<open>itemsCount\<close>, \<open>swapsCount\<close>.\<close>

record user =
  points :: int
  itemsCount :: int
  swapsCount :: int

text \<open>models/Item.js.\<close>

record item =
  owner :: user_id
  pointsValue :: int
  isAvailable :: bool
  isApproved :: bool
  isRejected :: bool
  likes :: int
  likedBy :: "user_id list"

datatype swap_status = Pending | Accepted | Rejected | Completed | Cancelled

datatype swap_type = Direct | Points

record points_transaction =
  fromUser :: user_id
  toUser :: user_id
  amount :: int
  transactionId :: string

record rating_entry =
  score :: int
  comment :: "string option"
  ratedAt :: nat

text \<open>models/Swap.js.  An absent optional field is \<open>None\<close>.\<close>

record swap =
  requester :: user_id
  requestedItem :: item_id
  offeredItems :: "item_id list"
  status :: swap_status
  swapType :: swap_type
  pointsOffered :: int
  message :: string
  responseMessage :: string
  isCompleted :: bool
  completedAt :: "nat option"
  cancelledBy :: "user_id option"
  cancellationReason :: "string option"
  requesterRating :: "rating_entry option"
  ownerRating :: "rating_entry option"
  pointsTransaction :: "points_transaction option"

section \<open>Item methods\<close>

text \<open>
  \<open>Array.prototype.indexOf\<close>: the position of the first occurrence, or \<open>-1\<close>.
\<close>

fun indexOf :: "'a list \<Rightarrow> 'a \<Rightarrow> int" where
  "indexOf [] x = - 1"
| "indexOf (y # ys) x =
     (if y = x then 0 else (let i = indexOf ys x in if i < 0 then - 1 else i + 1))"

text \<open>\<open>xs.splice(i, 1)\<close> for an index \<open>i \<ge> 0\<close>: the list without its element at \<open>i\<close>.\<close>

definition splice1 :: "'a list \<Rightarrow> int \<Rightarrow> 'a list" where
  "splice1 xs i = take (nat i) xs @ drop (nat i + 1) xs"

text \<open>
  \<open>itemSchema.methods.toggleLike\<close>:
  \<^verbatim>\<open>
  const index = this.likedBy.indexOf(userId);
  if (index > -1) { this.likedBy.splice(index, 1); this.likes -= 1; }
  else { this.likedBy.push(userId); this.likes += 1; }
  \<close>
\<close>

definition toggleLike :: "user_id \<Rightarrow> item \<Rightarrow> item" where
  "toggleLike userId it =
     (let index = indexOf (likedBy it) userId in
      if index > - 1
      then it\<lparr>likes := likes it - 1, likedBy := splice1 (likedBy it) index\<rparr>
      else it\<lparr>likes := likes it + 1, likedBy := likedBy it @ [userId]\<rparr>)"

text \<open>\<open>itemSchema.methods.isLikedBy\<close>: \<open>this.likedBy.includes(userId)\<close>.\<close>

definition isLikedBy :: "item \<Rightarrow> user_id \<Rightarrow> bool" where
  "isLikedBy it userId = (userId \<in> set (likedBy it))"

section \<open>The data store\<close>

text \<open>
  Users and items are collections keyed by id.  Swaps are never deleted by any route, so
  the swap collection is the list of all swaps in insertion order and the id of a swap is
  its position; a newly saved swap gets the next position, which is fresh.
\<close>

record db =
  users :: "user_id \<rightharpoonup> user"
  items :: "item_id \<rightharpoonup> item"
  swaps :: "swap list"

text \<open>\<open>Swap.findById\<close>.\<close>

definition findSwap :: "db \<Rightarrow> swap_id \<Rightarrow> swap option" where
  "findSwap d sid = (if sid < length (swaps d) then Some (swaps d ! sid) else None)"

text \<open>
  Every \<open>await Model.findByIdAndUpdate(...)\<close>, \<open>findByIdAndDelete\<close> and \<open>doc.save()\<close> is one
  write that the data store applies on its own; between two of them other requests can
  read the store.  A handler is therefore modelled as its reads and checks on the store it
  starts from, producing a response and the sequence of writes it issues, in source order.

  \<^item> \<open>IncUser id dp ds di\<close>: \<open>User.findByIdAndUpdate(id, {$inc: {points: dp, swapsCount: ds,
    itemsCount: di}})\<close>; no effect when the user does not exist.  The schema's \<open>min: 0\<close> is a
    save-time validator and is not applied to \<open>$inc\<close> updates.
  \<^item> \<open>SetItemUnavailable id\<close>: \<open>Item.findByIdAndUpdate(id, {isAvailable: false})\<close>.
  \<^item> \<open>DeleteItem id\<close>: \<open>Item.findByIdAndDelete(id)\<close>.
  \<^item> \<open>SaveItem id it\<close>, \<open>SaveSwap id s\<close>: \<open>doc.save()\<close> of a loaded document.
  \<^item> \<open>InsertSwap s\<close>: \<open>save()\<close> of a \<open>new Swap(...)\<close>.
\<close>

datatype db_write =
    IncUser user_id int int int
  | SetItemUnavailable item_id
  | DeleteItem item_id
  | SaveItem item_id item
  | SaveSwap swap_id swap
  | InsertSwap swap

fun apply_write :: "db_write \<Rightarrow> db \<Rightarrow> db" where
  "apply_write (IncUser uid dp ds di) d =
     (case users d uid of
        None \<Rightarrow> d
      | Some u \<Rightarrow> d\<lparr>users := (users d)(uid \<mapsto>
          u\<lparr>points := points u + dp, swapsCount := swapsCount u + ds,
            itemsCount := itemsCount u + di\<rparr>)\<rparr>)"
| "apply_write (SetItemUnavailable iid) d =
     (case items d iid of
        None \<Rightarrow> d
      | Some it \<Rightarrow> d\<lparr>items := (items d)(iid \<mapsto> it\<lparr>isAvailable := False\<rparr>)\<rparr>)"
| "apply_write (DeleteItem iid) d = d\<lparr>items := (items d)(iid := None)\<rparr>"
| "apply_write (SaveItem iid it) d = d\<lparr>items := (items d)(iid \<mapsto> it)\<rparr>"
| "apply_write (SaveSwap sid s) d = d\<lparr>swaps := (swaps d)[sid := s]\<rparr>"
| "apply_write (InsertSwap s) d = d\<lparr>swaps := swaps d @ [s]\<rparr>"

text \<open>The store after all writes of a handler, and every store state an observer can see.\<close>

fun exec_writes :: "db_write list \<Rightarrow> db \<Rightarrow> db" where
  "exec_writes [] d = d"
| "exec_writes (w # ws) d = exec_writes ws (apply_write w d)"

fun observable :: "db_write list \<Rightarrow> db \<Rightarrow> db list" where
  "observable [] d = [d]"
| "observable (w # ws) d = d # observable ws (apply_write w d)"

definition points_of :: "db \<Rightarrow> user_id \<Rightarrow> int option" where
  "points_of d uid = map_option points (users d uid)"

text \<open>The balance of one user in each of the store states an observer can see.\<close>

definition points_trace :: "user_id \<Rightarrow> db_write list \<Rightarrow> db \<Rightarrow> int option list" where
  "points_trace uid ws d = map (\<lambda>s. points_of s uid) (observable ws d)"

definition swapsCount_of :: "db \<Rightarrow> user_id \<Rightarrow> int option" where
  "swapsCount_of d uid = map_option swapsCount (users d uid)"

definition itemsCount_of :: "db \<Rightarrow> user_id \<Rightarrow> int option" where
  "itemsCount_of d uid = map_option itemsCount (users d uid)"

definition available_of :: "db \<Rightarrow> item_id \<Rightarrow> bool option" where
  "available_of d iid = map_option isAvailable (items d iid)"

definition status_of :: "db \<Rightarrow> swap_id \<Rightarrow> swap_status option" where
  "status_of d sid = map_option status (findSwap d sid)"

text \<open>The status of one swap in each of the store states an observer can see.\<close>

definition status_trace :: "swap_id \<Rightarrow> db_write list \<Rightarrow> db \<Rightarrow> swap_status option list" where
  "status_trace sid ws d = map (\<lambda>s. status_of s sid) (observable ws d)"

section \<open>Responses\<close>

text \<open>
  The error responses of the modelled routes, by HTTP status and message:
  \<^item> \<open>Unauthorized\<close>: 401 from \<open>authenticateToken\<close> (user of the token not found);
  \<^item> \<open>ValidationFailed\<close>: 400 "Validation failed";
  \<^item> \<open>ItemNotFound\<close>: 404 "Requested item not found" / "Item not found";
  \<^item> \<open>ItemUnavailable\<close>: 400 "Item is not available for swap";
  \<^item> \<open>SelfSwap\<close>: 400 "You cannot swap your own item";
  \<^item> \<open>OfferRequired\<close>: 400 "At least one offered item is required for direct swap";
  \<^item> \<open>OfferNotFound\<close>: 404 "One or more offered items not found";
  \<^item> \<open>OfferNotOwned\<close>: 403 "You can only offer your own items";
  \<^item> \<open>OfferUnavailable\<close>: 400 "One or more offered items are not available for swap";
  \<^item> \<open>PointsRequired\<close>: 400 "Points amount is required for points type";
  \<^item> \<open>InsufficientPoints\<close>: 400 "Insufficient points. ...";
  \<^item> \<open>PointsMismatch\<close>: 400 "Points amount must match item value ...";
  \<^item> \<open>DuplicateRequest\<close>: 400 "You already have a pending swap request for this item";
  \<^item> \<open>SwapNotFound\<close>: 404 "Swap not found";
  \<^item> \<open>Forbidden\<close>: 403 "You can only respond to swaps for your own items" /
    "Access denied" / "Only the item owner can mark this item as unavailable";
  \<^item> \<open>InvalidState\<close>: 400 "Swap is no longer pending" / "Swap must be accepted before
    completion" / "Swap cannot be cancelled in its current state" / "Can only rate
    completed swaps";
  \<^item> \<open>AlreadyUnavailable\<close>: 400 "Item is already unavailable";
  \<^item> \<open>ServerError\<close>: 500 from the handler's \<open>catch\<close> (a \<open>TypeError\<close> thrown in the body).
\<close>

datatype error =
    Unauthorized | ValidationFailed | ItemNotFound | ItemUnavailable | SelfSwap
  | OfferRequired | OfferNotFound | OfferNotOwned | OfferUnavailable
  | PointsRequired | InsufficientPoints | PointsMismatch | DuplicateRequest
  | SwapNotFound | Forbidden | InvalidState | AlreadyUnavailable | ServerError

type_synonym 'a outcome = "(error + 'a) \<times> db_write list"

definition failed :: "error \<Rightarrow> 'a outcome" where
  "failed e = (Inl e, [])"

text \<open>\<open>x || ''\<close> for an optional string.\<close>

definition orEmpty :: "string option \<Rightarrow> string" where
  "orEmpty m = (case m of None \<Rightarrow> [] | Some t \<Rightarrow> t)"

text \<open>\<open>body(f).optional().trim().isLength({max: n})\<close>, on the already trimmed string.\<close>

definition maxLength :: "nat \<Rightarrow> string option \<Rightarrow> bool" where
  "maxLength n m = (case m of None \<Rightarrow> True | Some t \<Rightarrow> length t \<le> n)"

section \<open>Swap methods (models/Swap.js)\<close>

definition completeSwap :: "nat \<Rightarrow> swap \<Rightarrow> swap" where
  "completeSwap now sw = sw\<lparr>status := Completed, isCompleted := True, completedAt := Some now\<rparr>"

text \<open>\<open>cancelSwap(userId, reason = '')\<close>: an absent reason is the empty string.\<close>

definition cancelSwap :: "user_id \<Rightarrow> string option \<Rightarrow> swap \<Rightarrow> swap" where
  "cancelSwap userId reason sw =
     sw\<lparr>status := Cancelled, cancelledBy := Some userId,
        cancellationReason := Some (orEmpty reason)\<rparr>"

definition addRating :: "user_id \<Rightarrow> int \<Rightarrow> string option \<Rightarrow> nat \<Rightarrow> swap \<Rightarrow> swap" where
  "addRating userId r c now sw =
     (if userId = requester sw
      then sw\<lparr>requesterRating := Some \<lparr>score = r, comment = c, ratedAt = now\<rparr>\<rparr>
      else sw\<lparr>ownerRating := Some \<lparr>score = r, comment = c, ratedAt = now\<rparr>\<rparr>)"

section \<open>POST /api/swaps\<close>

text \<open>
  \<open>Item.find({_id: {$in: ids}})\<close>: the existing items whose id is among \<open>ids\<close>, each once.
  The store returns them in its own order; here they come in the order of the request.
  When several offered items fail different checks, the error that the loop reports first
  can therefore differ from the route's; whether the request fails does not depend on the
  order.
\<close>

definition find_in :: "(item_id \<rightharpoonup> item) \<Rightarrow> item_id list \<Rightarrow> item list" where
  "find_in its ids = List.map_filter its (remdups ids)"

text \<open>The loop over the offered items.\<close>

fun check_offered :: "user_id \<Rightarrow> item list \<Rightarrow> error option" where
  "check_offered uid [] = None"
| "check_offered uid (it # rest) =
     (if owner it \<noteq> uid then Some OfferNotOwned
      else if \<not> isAvailable it \<or> \<not> isApproved it then Some OfferUnavailable
      else check_offered uid rest)"

text \<open>
  The handler body from the lookup of the requested item up to, not including, the
  duplicate check; \<open>None\<close> when every check passes.  \<open>reqUser\<close> is \<open>req.user\<close>.
\<close>

definition create_precheck ::
  "user \<Rightarrow> user_id \<Rightarrow> item_id \<Rightarrow> item_id list option \<Rightarrow> swap_type \<Rightarrow> int option \<Rightarrow> db
     \<Rightarrow> error option" where
  "create_precheck reqUser uid requestedItemId offered swapT pointsOff d =
     (case items d requestedItemId of
        None \<Rightarrow> Some ItemNotFound
      | Some requestedItemDoc \<Rightarrow>
          if \<not> isAvailable requestedItemDoc \<or> \<not> isApproved requestedItemDoc
          then Some ItemUnavailable
          else if owner requestedItemDoc = uid then Some SelfSwap
          else if swapT = Direct then
            (case offered of
               None \<Rightarrow> Some OfferRequired
             | Some ids \<Rightarrow>
                 if length ids = 0 then Some OfferRequired
                 else if length (find_in (items d) ids) \<noteq> length ids then Some OfferNotFound
                 else check_offered uid (find_in (items d) ids))
          else
            (case pointsOff of
               None \<Rightarrow> Some PointsRequired
             | Some p \<Rightarrow>
                 if p = 0 then Some PointsRequired
                 else if points reqUser < p then Some InsufficientPoints
                 else if p \<noteq> pointsValue requestedItemDoc then Some PointsMismatch
                 else None))"

text \<open>\<open>Swap.findOne({requester, requestedItem, status: 'pending'})\<close>.\<close>

definition findPending :: "db \<Rightarrow> user_id \<Rightarrow> item_id \<Rightarrow> swap option" where
  "findPending d uid iid =
     find (\<lambda>s. requester s = uid \<and> requestedItem s = iid \<and> status s = Pending) (swaps d)"

text \<open>\<open>new Swap({...})\<close> with the schema defaults.\<close>

definition new_swap ::
  "user_id \<Rightarrow> item_id \<Rightarrow> item_id list option \<Rightarrow> swap_type \<Rightarrow> int option \<Rightarrow> string option \<Rightarrow> swap" where
  "new_swap uid requestedItemId offered swapT pointsOff msg =
     \<lparr>requester = uid,
      requestedItem = requestedItemId,
      offeredItems = (if swapT = Direct then (case offered of None \<Rightarrow> [] | Some ids \<Rightarrow> ids) else []),
      status = Pending,
      swapType = swapT,
      pointsOffered = (if swapT = Points then (case pointsOff of None \<Rightarrow> 0 | Some p \<Rightarrow> p) else 0),
      message = orEmpty msg,
      responseMessage = [],
      isCompleted = False,
      completedAt = None,
      cancelledBy = None,
      cancellationReason = None,
      requesterRating = None,
      ownerRating = None,
      pointsTransaction = None\<rparr>"

text \<open>
  The route: \<open>authenticateToken\<close>, the validators (\<open>pointsOffered\<close> optional integer \<open>\<ge> 1\<close>,
  \<open>message\<close> at most 500 characters), then the handler.
\<close>

definition createSwap ::
  "user_id \<Rightarrow> item_id \<Rightarrow> item_id list option \<Rightarrow> swap_type \<Rightarrow> int option \<Rightarrow> string option \<Rightarrow> db
     \<Rightarrow> swap outcome" where
  "createSwap uid requestedItemId offered swapT pointsOff msg d =
     (case users d uid of
        None \<Rightarrow> failed Unauthorized
      | Some reqUser \<Rightarrow>
          if \<not> (case pointsOff of None \<Rightarrow> True | Some p \<Rightarrow> 1 \<le> p) \<or> \<not> maxLength 500 msg
          then failed ValidationFailed
          else
            (case create_precheck reqUser uid requestedItemId offered swapT pointsOff d of
               Some e \<Rightarrow> failed e
             | None \<Rightarrow>
                 (case findPending d uid requestedItemId of
                    Some existingSwap \<Rightarrow> failed DuplicateRequest
                  | None \<Rightarrow>
                      (let sw = new_swap uid requestedItemId offered swapT pointsOff msg
                       in (Inr sw, [InsertSwap sw])))))"

section \<open>PUT /api/swaps/:id/respond\<close>

datatype action = Accept | Reject

text \<open>
  \<open>populate('offeredItems')\<close> keeps the offered items that still exist; each of them is
  then passed to \<open>Item.findByIdAndUpdate\<close>.
\<close>

definition populated :: "(item_id \<rightharpoonup> item) \<Rightarrow> item_id list \<Rightarrow> item_id list" where
  "populated its ids = filter (\<lambda>i. its i \<noteq> None) ids"

text \<open>
  \<open>txnId\<close> is the string \<open>TXN_<Date.now()>_<random>\<close> the handler builds.  When the requested
  item no longer exists, \<open>populate('requestedItem')\<close> yields \<open>null\<close> and reading its owner
  throws, which the \<open>catch\<close> turns into status 500.
\<close>

text \<open>The branch \<open>swap.swapType === 'points'\<close> of an accept.\<close>

definition accept_points :: "swap_id \<Rightarrow> swap \<Rightarrow> item \<Rightarrow> string option \<Rightarrow> string \<Rightarrow> swap outcome" where
  "accept_points sid sw ritem responseMsg txnId =
     (let sw' = sw\<lparr>status := Accepted,
                    responseMessage := orEmpty responseMsg,
                    pointsTransaction := Some
                      \<lparr>fromUser = requester sw, toUser = owner ritem,
                       amount = pointsOffered sw, transactionId = txnId\<rparr>\<rparr>
      in (Inr sw',
          [IncUser (requester sw) (- pointsOffered sw) 0 0,
           IncUser (owner ritem) (pointsOffered sw) 0 0,
           SetItemUnavailable (requestedItem sw),
           SaveSwap sid sw',
           IncUser (requester sw) 100 1 0,
           IncUser (owner ritem) 100 1 0]))"

text \<open>The other branch of an accept ("Handle item swap").\<close>

definition accept_direct :: "swap_id \<Rightarrow> swap \<Rightarrow> item \<Rightarrow> string option \<Rightarrow> db \<Rightarrow> swap outcome" where
  "accept_direct sid sw ritem responseMsg d =
     (let sw' = sw\<lparr>status := Accepted, responseMessage := orEmpty responseMsg\<rparr>
      in (Inr sw',
          SetItemUnavailable (requestedItem sw)
          # map SetItemUnavailable (populated (items d) (offeredItems sw))
          @ [SaveSwap sid sw',
             IncUser (requester sw) 0 1 0,
             IncUser (owner ritem) 0 1 0,
             IncUser (requester sw) 100 1 0,
             IncUser (owner ritem) 100 1 0]))"

text \<open>The branch of a reject.\<close>

definition reject_swap :: "swap_id \<Rightarrow> swap \<Rightarrow> string option \<Rightarrow> swap outcome" where
  "reject_swap sid sw responseMsg =
     (let sw' = sw\<lparr>status := Rejected, responseMessage := orEmpty responseMsg\<rparr>
      in (Inr sw', [SaveSwap sid sw']))"

definition respond ::
  "user_id \<Rightarrow> swap_id \<Rightarrow> action \<Rightarrow> string option \<Rightarrow> string \<Rightarrow> db \<Rightarrow> swap outcome" where
  "respond uid sid act responseMsg txnId d =
     (case users d uid of
        None \<Rightarrow> failed Unauthorized
      | Some reqUser \<Rightarrow>
          if \<not> maxLength 500 responseMsg then failed ValidationFailed
          else
            (case findSwap d sid of
               None \<Rightarrow> failed SwapNotFound
             | Some sw \<Rightarrow>
                 (case items d (requestedItem sw) of
                    None \<Rightarrow> failed ServerError
                  | Some ritem \<Rightarrow>
                      if owner ritem \<noteq> uid then failed Forbidden
                      else if status sw \<noteq> Pending then failed InvalidState
                      else if act = Accept then
                        (if swapType sw = Points
                         then accept_points sid sw ritem responseMsg txnId
                         else accept_direct sid sw ritem responseMsg d)
                      else reject_swap sid sw responseMsg)))"

section \<open>PUT /api/swaps/:id/complete, PUT /api/swaps/:id/cancel, POST /api/swaps/:id/rate\<close>

text \<open>
  \<open>swap.requester == caller || swap.requestedItem.owner == caller\<close>, with the swap's
  requested item populated: the second operand is evaluated only when the first is false,
  and throws when the item no longer exists.
\<close>

definition isInvolved :: "user_id \<Rightarrow> swap \<Rightarrow> db \<Rightarrow> error + bool" where
  "isInvolved uid sw d =
     (if requester sw = uid then Inr True
      else (case items d (requestedItem sw) of
              None \<Rightarrow> Inl ServerError
            | Some ritem \<Rightarrow> Inr (owner ritem = uid)))"

definition complete :: "user_id \<Rightarrow> swap_id \<Rightarrow> nat \<Rightarrow> db \<Rightarrow> swap outcome" where
  "complete uid sid now d =
     (case users d uid of
        None \<Rightarrow> failed Unauthorized
      | Some reqUser \<Rightarrow>
          (case findSwap d sid of
             None \<Rightarrow> failed SwapNotFound
           | Some sw \<Rightarrow>
               (case isInvolved uid sw d of
                  Inl e \<Rightarrow> failed e
                | Inr involved \<Rightarrow>
                    if \<not> involved then failed Forbidden
                    else if status sw \<noteq> Accepted then failed InvalidState
                    else (let sw' = completeSwap now sw in (Inr sw', [SaveSwap sid sw'])))))"

text \<open>
  The cancel route answers with \<open>res.json\<close> of the swap it has just saved, without
  populating it again.  \<open>Inr\<close> stands for "the swap was saved": a failure while that
  answer is serialised comes after the write and changes nothing in the store, and is not
  part of the model.
\<close>

definition cancel :: "user_id \<Rightarrow> swap_id \<Rightarrow> string option \<Rightarrow> db \<Rightarrow> swap outcome" where
  "cancel uid sid reason d =
     (case users d uid of
        None \<Rightarrow> failed Unauthorized
      | Some reqUser \<Rightarrow>
          if \<not> maxLength 200 reason then failed ValidationFailed
          else
            (case findSwap d sid of
               None \<Rightarrow> failed SwapNotFound
             | Some sw \<Rightarrow>
                 (case isInvolved uid sw d of
                    Inl e \<Rightarrow> failed e
                  | Inr involved \<Rightarrow>
                      if \<not> involved then failed Forbidden
                      else if status sw \<noteq> Pending \<and> status sw \<noteq> Accepted then failed InvalidState
                      else (let sw' = cancelSwap uid reason sw in (Inr sw', [SaveSwap sid sw'])))))"

text \<open>
  The rate handler loads the swap without populating it, so \<open>swap.requestedItem\<close> is an
  id, its \<open>owner\<close> is undefined and \<open>.toString()\<close> on it throws: a caller who is not the
  requester gets status 500.
\<close>

definition rate ::
  "user_id \<Rightarrow> swap_id \<Rightarrow> int \<Rightarrow> string option \<Rightarrow> nat \<Rightarrow> db \<Rightarrow> swap outcome" where
  "rate uid sid r c now d =
     (case users d uid of
        None \<Rightarrow> failed Unauthorized
      | Some reqUser \<Rightarrow>
          if r < 1 \<or> 5 < r \<or> \<not> maxLength 300 c then failed ValidationFailed
          else
            (case findSwap d sid of
               None \<Rightarrow> failed SwapNotFound
             | Some sw \<Rightarrow>
                 if requester sw \<noteq> uid then failed ServerError
                 else if status sw \<noteq> Completed then failed InvalidState
                 else (let sw' = addRating uid r c now sw in (Inr sw', [SaveSwap sid sw']))))"

section \<open>POST /api/items/:id/mark-unavailable, POST /api/items/:id/like\<close>

definition markUnavailable :: "user_id \<Rightarrow> item_id \<Rightarrow> db \<Rightarrow> unit outcome" where
  "markUnavailable uid iid d =
     (case users d uid of
        None \<Rightarrow> failed Unauthorized
      | Some reqUser \<Rightarrow>
          (case items d iid of
             None \<Rightarrow> failed ItemNotFound
           | Some it \<Rightarrow>
               if owner it \<noteq> uid then failed Forbidden
               else if \<not> isAvailable it then failed AlreadyUnavailable
               else (Inr (), [DeleteItem iid, IncUser uid 0 0 (- 1)])))"

text \<open>The response carries \<open>likes\<close> and \<open>isLiked\<close>.\<close>

definition like :: "user_id \<Rightarrow> item_id \<Rightarrow> db \<Rightarrow> (int \<times> bool) outcome" where
  "like uid iid d =
     (case users d uid of
        None \<Rightarrow> failed Unauthorized
      | Some reqUser \<Rightarrow>
          (case items d iid of
             None \<Rightarrow> failed ItemNotFound
           | Some it \<Rightarrow>
               (let it' = toggleLike uid it
                in (Inr (likes it', isLikedBy it' uid), [SaveItem iid it']))))"

section \<open>Sequences of requests\<close>

datatype request =
    CreateSwap user_id item_id "item_id list option" swap_type "int option" "string option"
  | Respond user_id swap_id action "string option" string
  | Complete user_id swap_id nat
  | Cancel user_id swap_id "string option"
  | Rate user_id swap_id int "string option" nat
  | MarkUnavailable user_id item_id
  | Like user_id item_id

fun writes_of :: "request \<Rightarrow> db \<Rightarrow> db_write list" where
  "writes_of (CreateSwap uid iid offered swapT pointsOff msg) d =
     snd (createSwap uid iid offered swapT pointsOff msg d)"
| "writes_of (Respond uid sid act responseMsg txnId) d = snd (respond uid sid act responseMsg txnId d)"
| "writes_of (Complete uid sid now) d = snd (complete uid sid now d)"
| "writes_of (Cancel uid sid reason) d = snd (cancel uid sid reason d)"
| "writes_of (Rate uid sid r c now) d = snd (rate uid sid r c now d)"
| "writes_of (MarkUnavailable uid iid) d = snd (markUnavailable uid iid d)"
| "writes_of (Like uid iid) d = snd (like uid iid d)"

definition exec :: "request \<Rightarrow> db \<Rightarrow> db" where
  "exec rq d = exec_writes (writes_of rq d) d"

fun run :: "request list \<Rightarrow> db \<Rightarrow> db" where
  "run [] d = d"
| "run (rq # rqs) d = run rqs (exec rq d)"

text \<open>
  \<open>exec\<close> and \<open>run\<close> handle one request after the other.  The server does not: every
  \<open>await\<close> of a handler lets another request run, and no route takes a lock, checks a
  version or relies on a unique index.  \<open>overlapped_writes rq1 k rq2 d\<close> is the write
  sequence of one such overlap: the handler of \<open>rq1\<close> has done its reads on \<open>d\<close> and issued
  its first \<open>k\<close> writes when the handler of \<open>rq2\<close> runs from its reads to its last write;
  then the handler of \<open>rq1\<close> issues its remaining writes, decided by what it read at first.
  (Every modelled handler does all its reads before its first write.  A \<open>save()\<close> sends
  the fields the handler assigned, and \<open>status\<close> is among them in respond, complete and
  cancel, so the stored status after an overlap is the one the model gives.)
\<close>

definition overlapped_writes :: "request \<Rightarrow> nat \<Rightarrow> request \<Rightarrow> db \<Rightarrow> db_write list" where
  "overlapped_writes rq1 k rq2 d =
     (let ws1 = writes_of rq1 d
      in take k ws1 @ writes_of rq2 (exec_writes (take k ws1) d) @ drop k ws1)"

section \<open>The status graph and properties of stores\<close>

text \<open>
  The transition graph of the specification:
  pending to accepted or rejected, accepted to completed, pending or accepted to cancelled.
\<close>

fun spec_transition :: "swap_status \<Rightarrow> swap_status \<Rightarrow> bool" where
  "spec_transition Pending Accepted = True"
| "spec_transition Pending Rejected = True"
| "spec_transition Accepted Completed = True"
| "spec_transition Pending Cancelled = True"
| "spec_transition Accepted Cancelled = True"
| "spec_transition _ _ = False"

text \<open>At most one pending swap for each pair of requester and requested item.\<close>

definition one_pending_per_pair :: "db \<Rightarrow> bool" where
  "one_pending_per_pair d =
     distinct (map (\<lambda>s. (requester s, requestedItem s))
                   (filter (\<lambda>s. status s = Pending) (swaps d)))"

text \<open>No swap asks for an item that its own requester owns.\<close>

definition no_self_swap :: "db \<Rightarrow> bool" where
  "no_self_swap d =
     list_all (\<lambda>sw. case items d (requestedItem sw) of
                       None \<Rightarrow> True
                     | Some ritem \<Rightarrow> owner ritem \<noteq> requester sw) (swaps d)"

text \<open>Every item of the second store is an item of the first, with the same owner.\<close>

definition owner_kept :: "db \<Rightarrow> db \<Rightarrow> bool" where
  "owner_kept d d' =
     (\<forall>i it'. items d' i = Some it' \<longrightarrow> (\<exists>it. items d i = Some it \<and> owner it' = owner it))"

section \<open>Example documents and stores\<close>

text \<open>
  User 1 (300 points) and user 2 (50 points); items 10 and 11 of user 2, each worth 300
  points, and item 20 of user 1; no swaps yet.
\<close>

definition example_item :: item where
  "example_item = \<lparr>owner = 2, pointsValue = 300, isAvailable = True, isApproved = True,
                    isRejected = False, likes = 1, likedBy = [7]\<rparr>"

definition example_db :: db where
  "example_db =
     \<lparr>users = [1 \<mapsto> \<lparr>points = 300, itemsCount = 1, swapsCount = 0\<rparr>,
               2 \<mapsto> \<lparr>points = 50, itemsCount = 2, swapsCount = 0\<rparr>],
      items = [10 \<mapsto> example_item, 11 \<mapsto> example_item,
               20 \<mapsto> example_item\<lparr>owner := 1, pointsValue := 40\<rparr>],
      swaps = []\<rparr>"

text \<open>The pending points swap of user 1 for item 10, and the store holding it.\<close>

definition example_points_swap :: swap where
  "example_points_swap = new_swap 1 10 None Points (Some 300) None"

definition example_pending_db :: db where
  "example_pending_db = example_db\<lparr>swaps := [example_points_swap]\<rparr>"

text \<open>The pending direct swap of user 1 offering item 20 for item 10.\<close>

definition example_direct_swap :: swap where
  "example_direct_swap = new_swap 1 10 (Some [20]) Direct None None"

definition example_direct_db :: db where
  "example_direct_db = example_db\<lparr>swaps := [example_direct_swap]\<rparr>"

text \<open>The points swap after it has been rejected.\<close>

definition example_rejected_db :: db where
  "example_rejected_db = example_db\<lparr>swaps := [example_points_swap\<lparr>status := Rejected\<rparr>]\<rparr>"

text \<open>
  User 1, holding 300 points, requests items 10 and 11 for 300 points each; user 2 then
  accepts both requests.
\<close>

definition example_overdraw :: "request list" where
  "example_overdraw =
     [CreateSwap 1 10 None Points (Some 300) None,
      CreateSwap 1 11 None Points (Some 300) None,
      Respond 2 0 Accept None ''TXN_1'',
      Respond 2 1 Accept None ''TXN_2'']"

text \<open>The store with the pending points swap after item 10 has become unavailable.\<close>

definition example_unavailable_db :: db where
  "example_unavailable_db =
     example_pending_db\<lparr>items := (items example_pending_db)(10 \<mapsto> example_item\<lparr>isAvailable := False\<rparr>)\<rparr>"

section \<open>Auxiliary facts\<close>

subsection \<open>toggleLike\<close>

lemma indexOf_absent: "x \<notin> set xs \<Longrightarrow> indexOf xs x = - 1"
  by (induction xs) (auto simp: Let_def)

lemma indexOf_present: "x \<in> set xs \<Longrightarrow> 0 \<le> indexOf xs x"
  by (induction xs) (auto simp: Let_def)

lemma splice1_indexOf: "x \<in> set xs \<Longrightarrow> splice1 xs (indexOf xs x) = remove1 x xs"
proof (induction xs)
  case Nil
  then show ?case by simp
next
  case (Cons y ys)
  show ?case
  proof (cases "y = x")
    case True
    then show ?thesis by (simp add: splice1_def)
  next
    case False
    with Cons.prems have mem: "x \<in> set ys" by simp
    from indexOf_present [OF mem] have nn: "0 \<le> indexOf ys x" .
    from Cons.IH [OF mem] have ih: "take (nat (indexOf ys x)) ys @ drop (nat (indexOf ys x) + 1) ys = remove1 x ys"
      by (simp add: splice1_def)
    have "nat (indexOf ys x + 1) = Suc (nat (indexOf ys x))"
      using nn by simp
    with False nn ih show ?thesis
      by (simp add: splice1_def Let_def)
  qed
qed

lemma toggleLike_present:
  "userId \<in> set (likedBy it) \<Longrightarrow>
   toggleLike userId it = it\<lparr>likes := likes it - 1, likedBy := remove1 userId (likedBy it)\<rparr>"
  using indexOf_present [of userId "likedBy it"]
  by (simp add: toggleLike_def Let_def splice1_indexOf)

lemma toggleLike_absent:
  "userId \<notin> set (likedBy it) \<Longrightarrow>
   toggleLike userId it = it\<lparr>likes := likes it + 1, likedBy := likedBy it @ [userId]\<rparr>"
  by (simp add: toggleLike_def Let_def indexOf_absent)

lemma remove1_append_single: "x \<notin> set xs \<Longrightarrow> remove1 x (xs @ [x]) = xs"
  by (induction xs) auto

subsection \<open>Sequences of writes\<close>

lemma exec_writes_append: "exec_writes (ws @ vs) d = exec_writes vs (exec_writes ws d)"
  by (induction ws arbitrary: d) auto

lemma users_unavailable_all: "users (exec_writes (map SetItemUnavailable ids) d) = users d"
  by (induction ids arbitrary: d) (auto split: option.splits)

lemma swaps_unavailable_all: "swaps (exec_writes (map SetItemUnavailable ids) d) = swaps d"
  by (induction ids arbitrary: d) (auto split: option.splits)

lemma items_unavailable_all:
  "items (exec_writes (map SetItemUnavailable ids) d) i =
     (if i \<in> set ids then map_option (\<lambda>it. it\<lparr>isAvailable := False\<rparr>) (items d i) else items d i)"
proof (induction ids arbitrary: d)
  case Nil
  then show ?case by simp
next
  case (Cons a ids)
  show ?case
    by (cases "items d a") (auto simp: Cons.IH)
qed

lemma swaps_inc_user: "swaps (apply_write (IncUser u a b c) d) = swaps d"
  by (simp split: option.splits)

lemma swaps_set_unavailable: "swaps (apply_write (SetItemUnavailable i) d) = swaps d"
  by (simp split: option.splits)

subsection \<open>What each handler does to the swap collection\<close>

lemma accept_points_swaps:
  "accept_points sid sw ritem rm txn = (r, ws) \<Longrightarrow>
   \<exists>sw'. r = Inr sw' \<and> swaps (exec_writes ws d) = (swaps d)[sid := sw']
     \<and> requester sw' = requester sw \<and> requestedItem sw' = requestedItem sw \<and> status sw' = Accepted"
  by (auto simp: accept_points_def Let_def swaps_inc_user swaps_set_unavailable split: option.splits)

lemma accept_direct_swaps:
  "accept_direct sid sw ritem rm d = (r, ws) \<Longrightarrow>
   \<exists>sw'. r = Inr sw' \<and> swaps (exec_writes ws d) = (swaps d)[sid := sw']
     \<and> requester sw' = requester sw \<and> requestedItem sw' = requestedItem sw \<and> status sw' = Accepted"
  by (auto simp: accept_direct_def Let_def exec_writes_append swaps_unavailable_all split: option.splits)

lemma reject_swap_swaps:
  "reject_swap sid sw rm = (r, ws) \<Longrightarrow>
   \<exists>sw'. r = Inr sw' \<and> swaps (exec_writes ws d) = (swaps d)[sid := sw']
     \<and> requester sw' = requester sw \<and> requestedItem sw' = requestedItem sw \<and> status sw' = Rejected"
  by (auto simp: reject_swap_def Let_def)

lemma respond_shape:
  "(\<exists>e. respond uid sid act rm txn d = (Inl e, []))
   \<or> (\<exists>sw ritem u. users d uid = Some u \<and> maxLength 500 rm \<and> findSwap d sid = Some sw
         \<and> items d (requestedItem sw) = Some ritem \<and> owner ritem = uid \<and> status sw = Pending
         \<and> respond uid sid act rm txn d =
             (if act = Accept
              then (if swapType sw = Points then accept_points sid sw ritem rm txn
                    else accept_direct sid sw ritem rm d)
              else reject_swap sid sw rm))"
  by (auto simp: respond_def failed_def split: option.splits)

lemma respond_result:
  "(\<exists>e. fst (respond uid sid act rm txn d) = Inl e \<and> exec (Respond uid sid act rm txn) d = d)
   \<or> (\<exists>sw sw'. findSwap d sid = Some sw \<and> status sw = Pending
         \<and> fst (respond uid sid act rm txn d) = Inr sw'
         \<and> swaps (exec (Respond uid sid act rm txn) d) = (swaps d)[sid := sw']
         \<and> requester sw' = requester sw \<and> requestedItem sw' = requestedItem sw
         \<and> (status sw' = Accepted \<or> status sw' = Rejected))"
proof -
  obtain r ws where rw: "respond uid sid act rm txn d = (r, ws)" by (cases "respond uid sid act rm txn d")
  from respond_shape [of uid sid act rm txn d] consider
      (fail) e where "respond uid sid act rm txn d = (Inl e, [])"
    | (ok) sw ritem where "findSwap d sid = Some sw" "status sw = Pending"
        "respond uid sid act rm txn d =
             (if act = Accept
              then (if swapType sw = Points then accept_points sid sw ritem rm txn
                    else accept_direct sid sw ritem rm d)
              else reject_swap sid sw rm)"
    by blast
  then show ?thesis
  proof cases
    case fail
    then show ?thesis by (simp add: exec_def)
  next
    case ok
    have "\<exists>sw'. r = Inr sw' \<and> swaps (exec_writes ws d) = (swaps d)[sid := sw']
       \<and> requester sw' = requester sw \<and> requestedItem sw' = requestedItem sw
       \<and> (status sw' = Accepted \<or> status sw' = Rejected)"
    proof (cases "act = Accept")
      case True
      show ?thesis
      proof (cases "swapType sw = Points")
        case True
        with \<open>act = Accept\<close> ok(3) rw have "accept_points sid sw ritem rm txn = (r, ws)" by simp
        from accept_points_swaps [OF this, of d] show ?thesis by blast
      next
        case False
        with \<open>act = Accept\<close> ok(3) rw have "accept_direct sid sw ritem rm d = (r, ws)" by simp
        from accept_direct_swaps [OF this] show ?thesis by blast
      qed
    next
      case False
      with ok(3) rw have "reject_swap sid sw rm = (r, ws)" by simp
      from reject_swap_swaps [OF this, of d] show ?thesis by blast
    qed
    with ok(1,2) rw show ?thesis by (auto simp: exec_def)
  qed
qed

lemma complete_swaps:
  "swaps (exec (Complete uid sid now) d) =
     (case fst (complete uid sid now d) of Inl e \<Rightarrow> swaps d | Inr sw' \<Rightarrow> (swaps d)[sid := sw'])"
  by (simp add: exec_def complete_def failed_def Let_def split: option.splits sum.splits)

lemma complete_Inr:
  assumes "fst (complete uid sid now d) = Inr sw'"
  shows "\<exists>sw. findSwap d sid = Some sw \<and> status sw = Accepted \<and> requester sw' = requester sw
           \<and> requestedItem sw' = requestedItem sw \<and> status sw' = Completed"
  using assms
  by (auto simp: complete_def completeSwap_def failed_def Let_def split: option.splits if_splits sum.splits)

lemma cancel_swaps:
  "swaps (exec (Cancel uid sid reason) d) =
     (case fst (cancel uid sid reason d) of Inl e \<Rightarrow> swaps d | Inr sw' \<Rightarrow> (swaps d)[sid := sw'])"
  by (simp add: exec_def cancel_def failed_def Let_def split: option.splits sum.splits)

lemma cancel_Inr:
  assumes "fst (cancel uid sid reason d) = Inr sw'"
  shows "\<exists>sw. findSwap d sid = Some sw \<and> (status sw = Pending \<or> status sw = Accepted)
           \<and> requester sw' = requester sw
           \<and> requestedItem sw' = requestedItem sw \<and> status sw' = Cancelled"
  using assms
  by (auto simp: cancel_def cancelSwap_def failed_def Let_def split: option.splits if_splits sum.splits)

lemma rate_swaps:
  "swaps (exec (Rate uid sid r c now) d) =
     (case fst (rate uid sid r c now d) of Inl e \<Rightarrow> swaps d | Inr sw' \<Rightarrow> (swaps d)[sid := sw'])"
  by (simp add: exec_def rate_def failed_def Let_def split: option.splits sum.splits)

lemma rate_Inr:
  assumes "fst (rate uid sid r c now d) = Inr sw'"
  shows "\<exists>sw. findSwap d sid = Some sw
           \<and> requester sw' = requester sw
           \<and> requestedItem sw' = requestedItem sw \<and> status sw' = status sw"
  using assms
  by (auto simp: rate_def addRating_def failed_def Let_def split: option.splits if_splits sum.splits)

lemma createSwap_swaps:
  "swaps (exec (CreateSwap uid iid offered swapT pointsOff msg) d) =
     (case fst (createSwap uid iid offered swapT pointsOff msg d) of
        Inl e \<Rightarrow> swaps d | Inr sw \<Rightarrow> swaps d @ [sw])"
  by (simp add: exec_def createSwap_def failed_def Let_def split: option.splits)

lemma createSwap_Inr:
  assumes "fst (createSwap uid iid offered swapT pointsOff msg d) = Inr sw"
  shows "status sw = Pending \<and> requester sw = uid \<and> requestedItem sw = iid
         \<and> findPending d uid iid = None
         \<and> (\<exists>it. items d iid = Some it \<and> owner it \<noteq> uid)"
  using assms
  by (auto simp: createSwap_def create_precheck_def new_swap_def failed_def Let_def
      split: option.splits if_splits)

lemma markUnavailable_swaps: "swaps (exec (MarkUnavailable uid iid) d) = swaps d"
  by (simp add: exec_def markUnavailable_def failed_def split: option.splits)

lemma like_swaps: "swaps (exec (Like uid iid) d) = swaps d"
  by (simp add: exec_def like_def failed_def Let_def split: option.splits)

lemma swaps_exec_cases:
  "swaps (exec rq d) = swaps d
   \<or> (\<exists>sid sw sw'. findSwap d sid = Some sw \<and> swaps (exec rq d) = (swaps d)[sid := sw']
        \<and> requester sw' = requester sw \<and> requestedItem sw' = requestedItem sw
        \<and> (status sw' = status sw \<or> spec_transition (status sw) (status sw')))
   \<or> (\<exists>new. swaps (exec rq d) = swaps d @ [new] \<and> status new = Pending
        \<and> findPending d (requester new) (requestedItem new) = None
        \<and> (\<exists>it. items d (requestedItem new) = Some it \<and> owner it \<noteq> requester new))"
proof (cases rq)
  case (CreateSwap uid iid offered swapT pointsOff msg)
  show ?thesis
  proof (cases "fst (createSwap uid iid offered swapT pointsOff msg d)")
    case (Inl e)
    then show ?thesis using CreateSwap by (simp add: createSwap_swaps)
  next
    case (Inr sw)
    from createSwap_Inr [OF Inr] Inr show ?thesis
      unfolding CreateSwap by (simp add: createSwap_swaps)
  qed
next
  case (Respond uid sid act rm txn)
  from respond_result [of uid sid act rm txn d] consider
      (fail) "exec (Respond uid sid act rm txn) d = d"
    | (ok) sw sw' where "findSwap d sid = Some sw" "status sw = Pending"
        "swaps (exec (Respond uid sid act rm txn) d) = (swaps d)[sid := sw']"
        "requester sw' = requester sw" "requestedItem sw' = requestedItem sw"
        "status sw' = Accepted \<or> status sw' = Rejected"
    by blast
  then show ?thesis
  proof cases
    case fail
    with Respond show ?thesis by simp
  next
    case ok
    then have "findSwap d sid = Some sw \<and> swaps (exec rq d) = (swaps d)[sid := sw']
        \<and> requester sw' = requester sw \<and> requestedItem sw' = requestedItem sw
        \<and> (status sw' = status sw \<or> spec_transition (status sw) (status sw'))"
      using Respond by auto
    then show ?thesis by blast
  qed
next
  case (Complete uid sid now)
  show ?thesis
  proof (cases "fst (complete uid sid now d)")
    case (Inl e)
    then show ?thesis using Complete by (simp add: complete_swaps)
  next
    case (Inr sw')
    from complete_Inr [OF Inr] obtain sw where
      "findSwap d sid = Some sw" "status sw = Accepted" "requester sw' = requester sw"
      "requestedItem sw' = requestedItem sw" "status sw' = Completed"
      by blast
    then have "findSwap d sid = Some sw \<and> swaps (exec rq d) = (swaps d)[sid := sw']
        \<and> requester sw' = requester sw \<and> requestedItem sw' = requestedItem sw
        \<and> (status sw' = status sw \<or> spec_transition (status sw) (status sw'))"
      using Inr Complete by (auto simp: complete_swaps)
    then show ?thesis by blast
  qed
next
  case (Cancel uid sid reason)
  show ?thesis
  proof (cases "fst (cancel uid sid reason d)")
    case (Inl e)
    then show ?thesis using Cancel by (simp add: cancel_swaps)
  next
    case (Inr sw')
    from cancel_Inr [OF Inr] obtain sw where
      "findSwap d sid = Some sw" "status sw = Pending \<or> status sw = Accepted" "requester sw' = requester sw"
      "requestedItem sw' = requestedItem sw" "status sw' = Cancelled"
      by blast
    then have "findSwap d sid = Some sw \<and> swaps (exec rq d) = (swaps d)[sid := sw']
        \<and> requester sw' = requester sw \<and> requestedItem sw' = requestedItem sw
        \<and> (status sw' = status sw \<or> spec_transition (status sw) (status sw'))"
      using Inr Cancel by (auto simp: cancel_swaps)
    then show ?thesis by blast
  qed
next
  case (Rate uid sid r c now)
  show ?thesis
  proof (cases "fst (rate uid sid r c now d)")
    case (Inl e)
    then show ?thesis using Rate by (simp add: rate_swaps)
  next
    case (Inr sw')
    from rate_Inr [OF Inr] obtain sw where
      "findSwap d sid = Some sw" "requester sw' = requester sw"
      "requestedItem sw' = requestedItem sw" "status sw' = status sw"
      by blast
    then have "findSwap d sid = Some sw \<and> swaps (exec rq d) = (swaps d)[sid := sw']
        \<and> requester sw' = requester sw \<and> requestedItem sw' = requestedItem sw
        \<and> (status sw' = status sw \<or> spec_transition (status sw) (status sw'))"
      using Inr Rate by (auto simp: rate_swaps)
    then show ?thesis by blast
  qed
next
  case (MarkUnavailable uid iid)
  then show ?thesis by (simp add: markUnavailable_swaps)
next
  case (Like uid iid)
  then show ?thesis by (simp add: like_swaps)
qed

subsection \<open>Pending swaps per requester and item\<close>

lemma filter_update_not:
  "\<not> P y \<Longrightarrow> set (filter P (xs[i := y])) \<subseteq> set (filter P xs)"
  using set_update_subset_insert [of xs i y] by auto

lemma distinct_pairs_update_out:
  "distinct (map f (filter P xs)) \<Longrightarrow> \<not> P y \<Longrightarrow> distinct (map f (filter P (xs[i := y])))"
proof (induction xs arbitrary: i)
  case Nil
  then show ?case by simp
next
  case (Cons x xs)
  show ?case
  proof (cases i)
    case 0
    with Cons.prems show ?thesis by (simp split: if_splits)
  next
    case (Suc j)
    from Cons.prems have d: "distinct (map f (filter P xs))" by (simp split: if_splits)
    from Cons.IH [OF d Cons.prems(2)] have ih: "distinct (map f (filter P (xs[j := y])))" .
    show ?thesis
    proof (cases "P x")
      case True
      with Cons.prems have "f x \<notin> f ` set (filter P xs)" by simp
      moreover have "set (filter P (xs[j := y])) \<subseteq> set (filter P xs)"
        using Cons.prems(2) by (rule filter_update_not)
      ultimately have "f x \<notin> f ` set (filter P (xs[j := y]))" by blast
      with True ih Suc show ?thesis by simp
    next
      case False
      with ih Suc show ?thesis by simp
    qed
  qed
qed

lemma pairs_update_same:
  "i < length xs \<Longrightarrow> P y = P (xs ! i) \<Longrightarrow> f y = f (xs ! i) \<Longrightarrow>
   map f (filter P (xs[i := y])) = map f (filter P xs)"
proof (induction xs arbitrary: i)
  case Nil
  then show ?case by simp
next
  case (Cons x xs)
  then show ?case by (cases i) auto
qed

lemma findSwap_Some: "findSwap d sid = Some sw \<longleftrightarrow> sid < length (swaps d) \<and> sw = swaps d ! sid"
  by (auto simp: findSwap_def)

lemma spec_transition_not_pending: "spec_transition a b \<Longrightarrow> b \<noteq> Pending"
  by (cases a; cases b) auto

lemma one_pending_exec:
  assumes "one_pending_per_pair d"
  shows "one_pending_per_pair (exec rq d)"
proof -
  let ?f = "\<lambda>s. (requester s, requestedItem s)"
  let ?P = "\<lambda>s. status s = Pending"
  from assms have inv: "distinct (map ?f (filter ?P (swaps d)))"
    by (simp add: one_pending_per_pair_def)
  from swaps_exec_cases [of rq d] consider
      (same) "swaps (exec rq d) = swaps d"
    | (upd) sid sw sw' where "findSwap d sid = Some sw" "swaps (exec rq d) = (swaps d)[sid := sw']"
        "requester sw' = requester sw" "requestedItem sw' = requestedItem sw"
        "status sw' = status sw \<or> spec_transition (status sw) (status sw')"
    | (ins) new where "swaps (exec rq d) = swaps d @ [new]" "status new = Pending"
        "findPending d (requester new) (requestedItem new) = None"
    by blast
  then have "distinct (map ?f (filter ?P (swaps (exec rq d))))"
  proof cases
    case same
    with inv show ?thesis by simp
  next
    case upd
    from upd(1) have lt: "sid < length (swaps d)" and sw: "sw = swaps d ! sid"
      by (simp_all add: findSwap_Some)
    show ?thesis
    proof (cases "status sw' = Pending")
      case True
      with upd(5) have "status sw' = status sw"
        using spec_transition_not_pending by blast
      with upd(3,4) sw have "?P sw' = ?P (swaps d ! sid)" "?f sw' = ?f (swaps d ! sid)" by simp_all
      from pairs_update_same [of sid "swaps d" ?P sw' ?f, OF lt this] inv upd(2)
      show ?thesis by simp
    next
      case False
      from distinct_pairs_update_out [of ?f ?P "swaps d" sw' sid, OF inv False] upd(2)
      show ?thesis by simp
    qed
  next
    case ins
    from ins(3) have "\<forall>s \<in> set (swaps d). \<not> (requester s = requester new \<and> requestedItem s = requestedItem new \<and> status s = Pending)"
      by (simp add: findPending_def find_None_iff)
    then have "?f new \<notin> ?f ` set (filter ?P (swaps d))" by auto
    with inv ins(1,2) show ?thesis by simp
  qed
  then show ?thesis by (simp add: one_pending_per_pair_def)
qed

lemma one_pending_run:
  "one_pending_per_pair d \<Longrightarrow> one_pending_per_pair (run rqs d)"
  by (induction rqs arbitrary: d) (auto simp: one_pending_exec)

lemma createSwap_fail_no_writes:
  "fst (createSwap uid iid offered swapT pointsOff msg d) = Inl e \<Longrightarrow>
   exec (CreateSwap uid iid offered swapT pointsOff msg) d = d"
  by (auto simp: exec_def createSwap_def failed_def Let_def split: option.splits if_splits)

lemma createSwap_pending_exists:
  assumes "sw \<in> set (swaps d)" "requester sw = uid" "requestedItem sw = iid" "status sw = Pending"
  shows "\<exists>e. fst (createSwap uid iid offered swapT pointsOff msg d) = Inl e"
proof -
  from assms have "findPending d uid iid \<noteq> None"
    by (auto simp: findPending_def find_None_iff)
  then show ?thesis
    by (auto simp: createSwap_def failed_def Let_def split: option.splits if_splits)
qed

lemma createSwap_duplicate:
  assumes "sw \<in> set (swaps d)" "requester sw = uid" "requestedItem sw = iid" "status sw = Pending"
    and "users d uid = Some reqUser"
    and "case pointsOff of None \<Rightarrow> True | Some p \<Rightarrow> 1 \<le> p" and "maxLength 500 msg"
    and "create_precheck reqUser uid iid offered swapT pointsOff d = None"
  shows "fst (createSwap uid iid offered swapT pointsOff msg d) = Inl DuplicateRequest"
proof -
  from assms(1-4) have "findPending d uid iid \<noteq> None"
    by (auto simp: findPending_def find_None_iff)
  with assms(5-8) show ?thesis
    by (auto simp: createSwap_def failed_def Let_def split: option.splits if_splits)
qed

subsection \<open>Failing requests and single status steps\<close>

lemma complete_fail_no_writes:
  "fst (complete uid sid now d) = Inl e \<Longrightarrow> exec (Complete uid sid now) d = d"
  by (auto simp: exec_def complete_def failed_def Let_def split: option.splits sum.splits if_splits)

lemma cancel_fail_no_writes:
  "fst (cancel uid sid reason d) = Inl e \<Longrightarrow> exec (Cancel uid sid reason) d = d"
  by (auto simp: exec_def cancel_def failed_def Let_def split: option.splits sum.splits if_splits)

lemma status_step:
  assumes "findSwap d sid = Some sw"
  shows "\<exists>sw'. findSwap (exec rq d) sid = Some sw'
           \<and> (status sw' = status sw \<or> spec_transition (status sw) (status sw'))"
proof -
  from assms have lt: "sid < length (swaps d)" and sw: "sw = swaps d ! sid"
    by (simp_all add: findSwap_Some)
  from swaps_exec_cases [of rq d] consider
      (same) "swaps (exec rq d) = swaps d"
    | (upd) k old new where "findSwap d k = Some old" "swaps (exec rq d) = (swaps d)[k := new]"
        "status new = status old \<or> spec_transition (status old) (status new)"
    | (ins) new where "swaps (exec rq d) = swaps d @ [new]"
    by blast
  then show ?thesis
  proof cases
    case same
    with lt sw show ?thesis by (simp add: findSwap_def)
  next
    case upd
    from upd(1) have old: "old = swaps d ! k" by (simp add: findSwap_Some)
    show ?thesis
    proof (cases "k = sid")
      case True
      with upd lt sw old show ?thesis by (simp add: findSwap_def)
    next
      case False
      with upd(2) lt sw show ?thesis by (simp add: findSwap_def)
    qed
  next
    case ins
    with lt sw show ?thesis by (simp add: findSwap_def nth_append)
  qed
qed


subsection \<open>Item owners and self swaps\<close>

lemma owner_kept_refl: "owner_kept d d"
  by (simp add: owner_kept_def)

lemma owner_kept_trans: "owner_kept a b \<Longrightarrow> owner_kept b c \<Longrightarrow> owner_kept a c"
  by (fastforce simp: owner_kept_def)

lemma owner_kept_write:
  "(\<forall>i it. w = SaveItem i it \<longrightarrow> (\<exists>old. items d i = Some old \<and> owner it = owner old)) \<Longrightarrow>
   owner_kept d (apply_write w d)"
  by (cases w) (auto simp: owner_kept_def split: option.splits if_splits)

lemma owner_kept_writes:
  "(\<forall>w \<in> set ws. \<forall>i it. w \<noteq> SaveItem i it) \<Longrightarrow> owner_kept d (exec_writes ws d)"
proof (induction ws arbitrary: d)
  case Nil
  then show ?case by (simp add: owner_kept_refl)
next
  case (Cons w ws)
  from Cons.prems have "owner_kept d (apply_write w d)" by (intro owner_kept_write) auto
  moreover from Cons.prems have "owner_kept (apply_write w d) (exec_writes ws (apply_write w d))"
    by (intro Cons.IH) auto
  ultimately show ?case by (auto intro: owner_kept_trans)
qed

lemma toggleLike_owner: "owner (toggleLike u it) = owner it"
  by (simp add: toggleLike_def Let_def)

lemma no_SaveItem:
  assumes "\<forall>uid iid. rq \<noteq> Like uid iid"
  shows "\<forall>w \<in> set (writes_of rq d). \<forall>i it. w \<noteq> SaveItem i it"
proof (cases rq)
  case (CreateSwap uid iid offered swapT pointsOff msg)
  then show ?thesis
    by (auto simp: createSwap_def failed_def Let_def split: option.splits if_splits)
next
  case (Respond uid sid act rm txn)
  then show ?thesis
    by (auto simp: respond_def accept_points_def accept_direct_def reject_swap_def failed_def Let_def
        split: option.splits if_splits)
next
  case (Complete uid sid now)
  then show ?thesis
    by (auto simp: complete_def failed_def Let_def split: option.splits sum.splits if_splits)
next
  case (Cancel uid sid reason)
  then show ?thesis
    by (auto simp: cancel_def failed_def Let_def split: option.splits sum.splits if_splits)
next
  case (Rate uid sid r c now)
  then show ?thesis
    by (auto simp: rate_def failed_def Let_def split: option.splits if_splits)
next
  case (MarkUnavailable uid iid)
  then show ?thesis
    by (auto simp: markUnavailable_def failed_def split: option.splits if_splits)
next
  case (Like uid iid)
  with assms show ?thesis by blast
qed

lemma owner_kept_exec: "owner_kept d (exec rq d)"
proof (cases "\<exists>uid iid. rq = Like uid iid")
  case True
  then obtain uid iid where rq: "rq = Like uid iid" by blast
  show ?thesis
    unfolding rq
    by (auto simp: exec_def like_def failed_def Let_def owner_kept_def toggleLike_owner
        split: option.splits if_splits)
next
  case False
  then have "\<forall>w \<in> set (writes_of rq d). \<forall>i it. w \<noteq> SaveItem i it"
    by (intro no_SaveItem) blast
  then show ?thesis unfolding exec_def by (rule owner_kept_writes)
qed

lemma no_self_swap_exec:
  assumes "no_self_swap d"
  shows "no_self_swap (exec rq d)"
proof -
  let ?ok = "\<lambda>d sw. case items d (requestedItem sw) of None \<Rightarrow> True | Some ritem \<Rightarrow> owner ritem \<noteq> requester sw"
  have keep: "?ok (exec rq d) sw'"
    if "?ok d sw" "requester sw' = requester sw" "requestedItem sw' = requestedItem sw" for sw sw'
    using owner_kept_exec [of d rq] that by (fastforce simp: owner_kept_def split: option.splits)
  from assms have all: "\<forall>sw \<in> set (swaps d). ?ok d sw"
    by (simp add: no_self_swap_def list_all_iff)
  from swaps_exec_cases [of rq d] consider
      (same) "swaps (exec rq d) = swaps d"
    | (upd) sid sw sw' where "findSwap d sid = Some sw" "swaps (exec rq d) = (swaps d)[sid := sw']"
        "requester sw' = requester sw" "requestedItem sw' = requestedItem sw"
    | (ins) new it where "swaps (exec rq d) = swaps d @ [new]"
        "items d (requestedItem new) = Some it" "owner it \<noteq> requester new"
    by blast
  then have "\<forall>sw \<in> set (swaps (exec rq d)). ?ok (exec rq d) sw"
  proof cases
    case same
    with all keep show ?thesis by auto
  next
    case upd
    from upd(1) have "sw \<in> set (swaps d)" by (auto simp: findSwap_Some)
    with all have "?ok d sw" by blast
    from keep [OF this upd(3,4)] have new: "?ok (exec rq d) sw'" .
    have "set ((swaps d)[sid := sw']) \<subseteq> insert sw' (set (swaps d))"
      by (rule set_update_subset_insert)
    with upd(2) all keep new show ?thesis by auto
  next
    case ins
    from ins(2,3) have "?ok d new" by simp
    from keep [OF this refl refl] have "?ok (exec rq d) new" .
    with ins(1) all keep show ?thesis by auto
  qed
  then show ?thesis by (simp add: no_self_swap_def list_all_iff)
qed

lemma no_self_swap_run: "no_self_swap d \<Longrightarrow> no_self_swap (run rqs d)"
  by (induction rqs arbitrary: d) (auto simp: no_self_swap_exec)

section \<open>Accepting a points swap\<close>

text \<open>
  C1 (as amended).  When the owner of the requested item accepts a pending points swap
  of another user, the requester's balance afterwards is the balance before minus
  \<open>pointsOffered\<close> plus 100 and the owner's is the balance before plus \<open>pointsOffered\<close>
  plus 100.  The two sides are changed by separate successive writes: in the store state
  after the first write the requester is already debited while the owner's balance is
  still the old one.
\<close>

theorem respond_accept_points_balances:
  assumes "findSwap d sid = Some sw" and "status sw = Pending" and "swapType sw = Points"
    and "items d (requestedItem sw) = Some ritem" and "owner ritem = uid"
    and "users d uid = Some ownerDoc" and "users d (requester sw) = Some requesterDoc"
    and "requester sw \<noteq> uid" and "maxLength 500 responseMsg"
  shows "points_of (exec (Respond uid sid Accept responseMsg txnId) d) (requester sw)
           = Some (points requesterDoc - pointsOffered sw + 100)
       \<and> points_of (exec (Respond uid sid Accept responseMsg txnId) d) uid
           = Some (points ownerDoc + pointsOffered sw + 100)
       \<and> points_of (observable (writes_of (Respond uid sid Accept responseMsg txnId) d) d ! 1)
             (requester sw)
           = Some (points requesterDoc - pointsOffered sw)
       \<and> points_of (observable (writes_of (Respond uid sid Accept responseMsg txnId) d) d ! 1) uid
           = Some (points ownerDoc)"
  using assms
  by (simp add: exec_def respond_def accept_points_def points_of_def Let_def)

text \<open>The theorem on the example: user 2 accepts the swap of user 1 for item 10.\<close>

theorem respond_accept_points_balances_witness:
  "points_of (exec (Respond 2 0 Accept None ''TXN_1'') example_pending_db) 1 = Some 100
   \<and> points_of (exec (Respond 2 0 Accept None ''TXN_1'') example_pending_db) 2 = Some 450
   \<and> points_of (observable (writes_of (Respond 2 0 Accept None ''TXN_1'') example_pending_db)
                 example_pending_db ! 1) 1 = Some 0
   \<and> points_of (observable (writes_of (Respond 2 0 Accept None ''TXN_1'') example_pending_db)
                 example_pending_db ! 1) 2 = Some 50"
proof -
  have a: "findSwap example_pending_db 0 = Some example_points_swap" by code_simp
  have b: "status example_points_swap = Pending" by code_simp
  have c: "swapType example_points_swap = Points" by code_simp
  have e: "items example_pending_db (requestedItem example_points_swap) = Some example_item"
    by code_simp
  have f: "owner example_item = 2" by code_simp
  have g: "users example_pending_db 2 = Some \<lparr>points = 50, itemsCount = 2, swapsCount = 0\<rparr>"
    by code_simp
  have h: "users example_pending_db (requester example_points_swap)
             = Some \<lparr>points = 300, itemsCount = 1, swapsCount = 0\<rparr>"
    by code_simp
  have i: "requester example_points_swap \<noteq> 2" by code_simp
  have j: "maxLength 500 None" by code_simp
  have k: "requester example_points_swap = 1" "pointsOffered example_points_swap = 300"
    by code_simp+
  from respond_accept_points_balances [OF a b c e f g h i j, of "''TXN_1''"] k
  show ?thesis by simp
qed

text \<open>
  The balances of the requester and of the owner in the successive store states of that
  accept: the second state has only the requester's side updated.
\<close>

theorem respond_accept_points_not_atomic:
  "points_trace 1 (writes_of (Respond 2 0 Accept None ''TXN_1'') example_pending_db) example_pending_db
     = [Some 300, Some 0, Some 0, Some 0, Some 0, Some 100, Some 100]
   \<and> points_trace 2 (writes_of (Respond 2 0 Accept None ''TXN_1'') example_pending_db) example_pending_db
     = [Some 50, Some 50, Some 350, Some 350, Some 350, Some 350, Some 450]"
  by code_simp

section \<open>Marking an item unavailable\<close>

text \<open>
  C6 (as amended).  When an owner marks their own available item unavailable, the item
  record is deleted from the store, every other item is untouched, and the owner's
  \<open>itemsCount\<close> is decremented by one.
\<close>

theorem markUnavailable_deletes:
  assumes "users d uid = Some u" and "items d iid = Some it" and "owner it = uid" and "isAvailable it"
  shows "fst (markUnavailable uid iid d) = Inr ()
       \<and> items (exec (MarkUnavailable uid iid) d) iid = None
       \<and> (\<forall>j. j \<noteq> iid \<longrightarrow> items (exec (MarkUnavailable uid iid) d) j = items d j)
       \<and> itemsCount_of (exec (MarkUnavailable uid iid) d) uid = Some (itemsCount u - 1)"
  using assms
  by (simp add: exec_def markUnavailable_def itemsCount_of_def)

text \<open>The theorem on the example: user 2 marks item 10 unavailable.\<close>

theorem markUnavailable_deletes_witness:
  "fst (markUnavailable 2 10 example_db) = Inr ()
   \<and> items (exec (MarkUnavailable 2 10) example_db) 10 = None
   \<and> items (exec (MarkUnavailable 2 10) example_db) 11 = items example_db 11
   \<and> itemsCount_of (exec (MarkUnavailable 2 10) example_db) 2 = Some 1"
proof -
  have a: "users example_db 2 = Some \<lparr>points = 50, itemsCount = 2, swapsCount = 0\<rparr>"
    by code_simp
  have b: "items example_db 10 = Some example_item" by code_simp
  have c: "owner example_item = 2" by code_simp
  have e: "isAvailable example_item" by code_simp
  from markUnavailable_deletes [OF a b c e] show ?thesis by simp
qed

text \<open>
  After the successful request the record of item 10 no longer exists, so it has no
  \<open>isAvailable\<close> flag at all.
\<close>

theorem markUnavailable_record_gone:
  "fst (markUnavailable 2 10 example_db) = Inr ()
   \<and> available_of example_db 10 = Some True
   \<and> available_of (exec (MarkUnavailable 2 10) example_db) 10 = None"
  by code_simp

section \<open>Cancelling a swap\<close>

text \<open>
  C8.  Cancelling a pending or accepted swap changes nothing but that swap's \<open>status\<close>
  (to cancelled), \<open>cancelledBy\<close> and \<open>cancellationReason\<close>: the users (hence every points
  balance) and the items (hence every \<open>isAvailable\<close> flag) are the same as before, and the
  swap collection differs only at this swap, in these three fields.
\<close>

theorem cancel_frame:
  assumes "users d uid = Some u" and "findSwap d sid = Some sw"
    and "status sw = Pending \<or> status sw = Accepted"
    and "isInvolved uid sw d = Inr True" and "maxLength 200 reason"
  shows "users (exec (Cancel uid sid reason) d) = users d
       \<and> items (exec (Cancel uid sid reason) d) = items d
       \<and> swaps (exec (Cancel uid sid reason) d) =
           (swaps d)[sid := sw\<lparr>status := Cancelled, cancelledBy := Some uid,
                               cancellationReason := Some (orEmpty reason)\<rparr>]"
  using assms
  by (auto simp: exec_def cancel_def cancelSwap_def Let_def)

text \<open>The theorem on the example: user 1 cancels the pending swap.\<close>

theorem cancel_frame_witness:
  "users (exec (Cancel 1 0 None) example_pending_db) = users example_pending_db
   \<and> items (exec (Cancel 1 0 None) example_pending_db) = items example_pending_db
   \<and> swaps (exec (Cancel 1 0 None) example_pending_db) =
       [example_points_swap\<lparr>status := Cancelled, cancelledBy := Some 1,
                             cancellationReason := Some []\<rparr>]"
proof -
  have a: "users example_pending_db 1 = Some \<lparr>points = 300, itemsCount = 1, swapsCount = 0\<rparr>"
    by code_simp
  have b: "findSwap example_pending_db 0 = Some example_points_swap" by code_simp
  have c: "status example_points_swap = Pending \<or> status example_points_swap = Accepted"
    by code_simp
  have e: "isInvolved 1 example_points_swap example_pending_db = Inr True" by code_simp
  have f: "maxLength 200 None" by code_simp
  have g: "swaps example_pending_db = [example_points_swap]" by (simp add: example_pending_db_def)
  from cancel_frame [OF a b c e f] g show ?thesis by (simp add: orEmpty_def)
qed

section \<open>Creating a swap request\<close>

text \<open>
  C9.  A successful swap creation returns a swap in status pending, appends exactly that
  swap to the swap collection, and leaves every user (hence every points balance) and
  every item (hence \<open>isAvailable\<close>, \<open>isApproved\<close> and \<open>owner\<close>) as they were.
\<close>

theorem createSwap_frame:
  assumes "fst (createSwap uid iid offered swapT pointsOff msg d) = Inr sw"
  shows "status sw = Pending
       \<and> users (exec (CreateSwap uid iid offered swapT pointsOff msg) d) = users d
       \<and> items (exec (CreateSwap uid iid offered swapT pointsOff msg) d) = items d
       \<and> swaps (exec (CreateSwap uid iid offered swapT pointsOff msg) d) = swaps d @ [sw]"
  using assms
  by (auto simp: exec_def createSwap_def failed_def new_swap_def Let_def
      split: option.splits if_splits)

text \<open>The theorem on the example: user 1 requests item 10 for 300 points.\<close>

theorem createSwap_frame_witness:
  "status example_points_swap = Pending
   \<and> users (exec (CreateSwap 1 10 None Points (Some 300) None) example_db) = users example_db
   \<and> items (exec (CreateSwap 1 10 None Points (Some 300) None) example_db) = items example_db
   \<and> swaps (exec (CreateSwap 1 10 None Points (Some 300) None) example_db)
       = swaps example_db @ [example_points_swap]"
proof -
  have a: "fst (createSwap 1 10 None Points (Some 300) None example_db) = Inr example_points_swap"
    by code_simp
  from createSwap_frame [OF a] show ?thesis by simp
qed

section \<open>Accepting a direct swap\<close>

text \<open>
  C2.  Evaluation of the accept of the pending direct swap of the example (user 1 offers
  item 20 for item 10 of user 2): the swap becomes accepted and both items unavailable,
  each party gets 100 points, but the \<open>swapsCount\<close> of each party goes from 0 to 2, because
  the branch increments it in two successive updates per party.
\<close>

theorem respond_accept_direct_counts_twice:
  "status_of example_direct_db 0 = Some Pending
   \<and> swapsCount_of example_direct_db 1 = Some 0
   \<and> swapsCount_of example_direct_db 2 = Some 0
   \<and> status_of (exec (Respond 2 0 Accept None []) example_direct_db) 0 = Some Accepted
   \<and> swapsCount_of (exec (Respond 2 0 Accept None []) example_direct_db) 1 = Some 2
   \<and> swapsCount_of (exec (Respond 2 0 Accept None []) example_direct_db) 2 = Some 2
   \<and> points_of (exec (Respond 2 0 Accept None []) example_direct_db) 1 = Some 400
   \<and> points_of (exec (Respond 2 0 Accept None []) example_direct_db) 2 = Some 150
   \<and> available_of (exec (Respond 2 0 Accept None []) example_direct_db) 10 = Some False
   \<and> available_of (exec (Respond 2 0 Accept None []) example_direct_db) 20 = Some False"
  by code_simp


section \<open>The points balance can become negative\<close>

text \<open>
  C3.  Evaluation of the request sequence \<open>example_overdraw\<close>: user 1 starts with 300
  points, both points swaps are created (the balance is only compared, not reserved) and
  both are accepted; the second accept debits 300 points from a balance of 100, and the
  requester ends with a balance of -100.
\<close>

theorem points_balance_negative:
  "points_of example_db 1 = Some 300
   \<and> status_of (run example_overdraw example_db) 0 = Some Accepted
   \<and> status_of (run example_overdraw example_db) 1 = Some Accepted
   \<and> points_of (run example_overdraw example_db) 1 = Some (- 100)"
  by code_simp


section \<open>The status graph\<close>

text \<open>
  C4 (as amended).  When requests are handled one after the other, for every request and
  every existing swap the swap still exists afterwards and its status is either unchanged
  or has moved along one edge of the graph pending to accepted or rejected, accepted to
  completed, pending or accepted to cancelled.  A respond on a non-pending swap, a complete
  on a non-accepted swap and a cancel on a rejected, completed or cancelled swap each
  return an error and leave the whole store unchanged; the error is the invalid-state
  response whenever the request reaches the status check, that is when the caller is
  authenticated, the body passes validation and the caller is the owner of the requested
  item (respond) or a party of the swap (complete, cancel).
\<close>

theorem status_transitions:
  assumes "findSwap d sid = Some sw"
  shows "(\<exists>sw'. findSwap (exec rq d) sid = Some sw'
            \<and> (status sw' = status sw \<or> spec_transition (status sw) (status sw')))
       \<and> (status sw \<noteq> Pending \<longrightarrow>
            (\<exists>e. fst (respond uid sid act responseMsg txnId d) = Inl e)
            \<and> exec (Respond uid sid act responseMsg txnId) d = d
            \<and> (users d uid \<noteq> None \<and> maxLength 500 responseMsg
                 \<and> map_option owner (items d (requestedItem sw)) = Some uid
               \<longrightarrow> fst (respond uid sid act responseMsg txnId d) = Inl InvalidState))
       \<and> (status sw \<noteq> Accepted \<longrightarrow>
            (\<exists>e. fst (complete uid sid now d) = Inl e)
            \<and> exec (Complete uid sid now) d = d
            \<and> (users d uid \<noteq> None \<and> isInvolved uid sw d = Inr True
               \<longrightarrow> fst (complete uid sid now d) = Inl InvalidState))
       \<and> (status sw \<noteq> Pending \<and> status sw \<noteq> Accepted \<longrightarrow>
            (\<exists>e. fst (cancel uid sid reason d) = Inl e)
            \<and> exec (Cancel uid sid reason) d = d
            \<and> (users d uid \<noteq> None \<and> maxLength 200 reason \<and> isInvolved uid sw d = Inr True
               \<longrightarrow> fst (cancel uid sid reason d) = Inl InvalidState))"
proof -
  have 1: "\<exists>sw'. findSwap (exec rq d) sid = Some sw'
            \<and> (status sw' = status sw \<or> spec_transition (status sw) (status sw'))"
    using assms by (rule status_step)
  have 2: "status sw \<noteq> Pending \<longrightarrow>
            (\<exists>e. fst (respond uid sid act responseMsg txnId d) = Inl e)
            \<and> exec (Respond uid sid act responseMsg txnId) d = d
            \<and> (users d uid \<noteq> None \<and> maxLength 500 responseMsg
                 \<and> map_option owner (items d (requestedItem sw)) = Some uid
               \<longrightarrow> fst (respond uid sid act responseMsg txnId d) = Inl InvalidState)"
  proof (intro impI conjI)
    assume np: "status sw \<noteq> Pending"
    from respond_result [of uid sid act responseMsg txnId d] assms np
    show "\<exists>e. fst (respond uid sid act responseMsg txnId d) = Inl e"
      and "exec (Respond uid sid act responseMsg txnId) d = d"
      by auto
    assume "users d uid \<noteq> None \<and> maxLength 500 responseMsg
                 \<and> map_option owner (items d (requestedItem sw)) = Some uid"
    with assms np show "fst (respond uid sid act responseMsg txnId d) = Inl InvalidState"
      by (auto simp: respond_def failed_def)
  qed
  have 3: "status sw \<noteq> Accepted \<longrightarrow>
            (\<exists>e. fst (complete uid sid now d) = Inl e)
            \<and> exec (Complete uid sid now) d = d
            \<and> (users d uid \<noteq> None \<and> isInvolved uid sw d = Inr True
               \<longrightarrow> fst (complete uid sid now d) = Inl InvalidState)"
  proof (intro impI conjI)
    assume na: "status sw \<noteq> Accepted"
    show e: "\<exists>e. fst (complete uid sid now d) = Inl e"
    proof (cases "fst (complete uid sid now d)")
      case (Inl e)
      then show ?thesis by blast
    next
      case (Inr sw')
      from complete_Inr [OF Inr] assms na show ?thesis by auto
    qed
    from e show "exec (Complete uid sid now) d = d"
      by (auto dest: complete_fail_no_writes)
    assume "users d uid \<noteq> None \<and> isInvolved uid sw d = Inr True"
    with assms na show "fst (complete uid sid now d) = Inl InvalidState"
      by (auto simp: complete_def failed_def)
  qed
  have 4: "status sw \<noteq> Pending \<and> status sw \<noteq> Accepted \<longrightarrow>
            (\<exists>e. fst (cancel uid sid reason d) = Inl e)
            \<and> exec (Cancel uid sid reason) d = d
            \<and> (users d uid \<noteq> None \<and> maxLength 200 reason \<and> isInvolved uid sw d = Inr True
               \<longrightarrow> fst (cancel uid sid reason d) = Inl InvalidState)"
  proof (intro impI conjI)
    assume t: "status sw \<noteq> Pending \<and> status sw \<noteq> Accepted"
    show e: "\<exists>e. fst (cancel uid sid reason d) = Inl e"
    proof (cases "fst (cancel uid sid reason d)")
      case (Inl e)
      then show ?thesis by blast
    next
      case (Inr sw')
      from cancel_Inr [OF Inr] assms t show ?thesis by auto
    qed
    from e show "exec (Cancel uid sid reason) d = d"
      by (auto dest: cancel_fail_no_writes)
    assume "users d uid \<noteq> None \<and> maxLength 200 reason \<and> isInvolved uid sw d = Inr True"
    with assms t show "fst (cancel uid sid reason d) = Inl InvalidState"
      by (auto simp: cancel_def failed_def)
  qed
  from 1 2 3 4 show ?thesis by blast
qed


text \<open>
  The theorem on the examples: accepting the pending swap moves it to accepted; on the
  rejected swap respond, complete and cancel fail with the invalid-state response.
\<close>

theorem status_transitions_witness:
  "(\<exists>sw'. findSwap (exec (Respond 2 0 Accept None ''TXN_1'') example_pending_db) 0 = Some sw'
          \<and> (status sw' = Pending \<or> spec_transition Pending (status sw')))
   \<and> status_of (exec (Respond 2 0 Accept None ''TXN_1'') example_pending_db) 0 = Some Accepted
   \<and> fst (respond 2 0 Accept None ''TXN_1'' example_rejected_db) = Inl InvalidState
   \<and> exec (Respond 2 0 Accept None ''TXN_1'') example_rejected_db = example_rejected_db
   \<and> fst (complete 1 0 5 example_rejected_db) = Inl InvalidState
   \<and> exec (Complete 1 0 5) example_rejected_db = example_rejected_db
   \<and> fst (cancel 1 0 None example_rejected_db) = Inl InvalidState
   \<and> exec (Cancel 1 0 None) example_rejected_db = example_rejected_db"
proof -
  have a: "findSwap example_pending_db 0 = Some example_points_swap" by code_simp
  have b: "status example_points_swap = Pending" by code_simp
  from status_transitions [OF a, of "Respond 2 0 Accept None ''TXN_1''"]
  have "\<exists>sw'. findSwap (exec (Respond 2 0 Accept None ''TXN_1'') example_pending_db) 0 = Some sw'
          \<and> (status sw' = status example_points_swap
              \<or> spec_transition (status example_points_swap) (status sw'))"
    by (rule conjunct1)
  then have w: "\<exists>sw'. findSwap (exec (Respond 2 0 Accept None ''TXN_1'') example_pending_db) 0 = Some sw'
          \<and> (status sw' = Pending \<or> spec_transition Pending (status sw'))"
    by (simp only: b)
  have d: "status_of (exec (Respond 2 0 Accept None ''TXN_1'') example_pending_db) 0 = Some Accepted"
    by code_simp
  have r: "findSwap example_rejected_db 0 = Some (example_points_swap\<lparr>status := Rejected\<rparr>)"
    by code_simp
  have r1: "status (example_points_swap\<lparr>status := Rejected\<rparr>) \<noteq> Pending"
       "status (example_points_swap\<lparr>status := Rejected\<rparr>) \<noteq> Accepted" by simp_all
  have r2: "users example_rejected_db 2 \<noteq> None" "users example_rejected_db 1 \<noteq> None" by code_simp+
  have r3: "maxLength 500 None" "maxLength 200 None" by code_simp+
  have r4: "map_option owner
              (items example_rejected_db (requestedItem (example_points_swap\<lparr>status := Rejected\<rparr>)))
            = Some 2"
    by code_simp
  have r5: "isInvolved 1 (example_points_swap\<lparr>status := Rejected\<rparr>) example_rejected_db = Inr True"
    by code_simp
  from status_transitions [OF r, of _ 2 Accept None "''TXN_1''"] r1 r2 r3 r4
  have x: "fst (respond 2 0 Accept None ''TXN_1'' example_rejected_db) = Inl InvalidState
     \<and> exec (Respond 2 0 Accept None ''TXN_1'') example_rejected_db = example_rejected_db"
    by blast
  from status_transitions [OF r, of _ 1 _ _ _ 5 None] r1 r2 r3 r5
  have y: "fst (complete 1 0 5 example_rejected_db) = Inl InvalidState
   \<and> exec (Complete 1 0 5) example_rejected_db = example_rejected_db
   \<and> fst (cancel 1 0 None example_rejected_db) = Inl InvalidState
   \<and> exec (Cancel 1 0 None) example_rejected_db = example_rejected_db"
    by blast
  from w d x y show ?thesis by blast
qed

text \<open>
  Without that restriction the status leaves the graph.  User 2 accepts the pending swap
  of the example; after the first three writes of the accept (the two point transfers and
  the item update) user 1 cancels the swap, which is still pending in the store; then the
  accept saves the swap as accepted.  The stored status goes from pending to cancelled and
  from cancelled to accepted.
\<close>

theorem status_leaves_graph_when_overlapped:
  "status_trace 0
     (overlapped_writes (Respond 2 0 Accept None ''TXN_1'') 3 (Cancel 1 0 None) example_pending_db)
     example_pending_db
     = [Some Pending, Some Pending, Some Pending, Some Pending,
        Some Cancelled, Some Accepted, Some Accepted, Some Accepted]
   \<and> \<not> spec_transition Cancelled Accepted"
  by code_simp

section \<open>One pending swap per requester and item\<close>

text \<open>
  C5 (as amended).  When requests are handled one after the other, every sequence of
  requests keeps the property that no two pending swaps have the same requester and
  requested item.  Creating a swap for a pair that already has a pending swap returns an
  error and leaves the store unchanged, so no swap is created; the error is the
  duplicate-request response whenever the request reaches the duplicate check, that is
  when the caller is authenticated, the body passes validation and the checks on the
  requested item, the offer and the points pass.
\<close>

theorem one_pending_swap_per_pair:
  "(one_pending_per_pair d \<longrightarrow> one_pending_per_pair (run rqs d))
   \<and> ((\<exists>sw \<in> set (swaps d). requester sw = uid \<and> requestedItem sw = iid \<and> status sw = Pending) \<longrightarrow>
        (\<exists>e. fst (createSwap uid iid offered swapT pointsOff msg d) = Inl e)
        \<and> exec (CreateSwap uid iid offered swapT pointsOff msg) d = d
        \<and> (\<forall>reqUser. users d uid = Some reqUser
              \<and> (case pointsOff of None \<Rightarrow> True | Some p \<Rightarrow> 1 \<le> p) \<and> maxLength 500 msg
              \<and> create_precheck reqUser uid iid offered swapT pointsOff d = None
            \<longrightarrow> fst (createSwap uid iid offered swapT pointsOff msg d) = Inl DuplicateRequest))"
proof (intro conjI impI allI)
  assume "one_pending_per_pair d"
  then show "one_pending_per_pair (run rqs d)" by (rule one_pending_run)
next
  assume "\<exists>sw \<in> set (swaps d). requester sw = uid \<and> requestedItem sw = iid \<and> status sw = Pending"
  then obtain sw where sw: "sw \<in> set (swaps d)" "requester sw = uid" "requestedItem sw = iid"
    "status sw = Pending" by blast
  from createSwap_pending_exists [OF sw]
  show e: "\<exists>e. fst (createSwap uid iid offered swapT pointsOff msg d) = Inl e" .
  from e show "exec (CreateSwap uid iid offered swapT pointsOff msg) d = d"
    by (auto dest: createSwap_fail_no_writes)
  fix reqUser
  assume "users d uid = Some reqUser
              \<and> (case pointsOff of None \<Rightarrow> True | Some p \<Rightarrow> 1 \<le> p) \<and> maxLength 500 msg
              \<and> create_precheck reqUser uid iid offered swapT pointsOff d = None"
  with createSwap_duplicate [OF sw]
  show "fst (createSwap uid iid offered swapT pointsOff msg d) = Inl DuplicateRequest" by blast
qed


text \<open>The theorem on the example: user 1 asks again for item 10 while the swap is pending.\<close>

theorem one_pending_swap_per_pair_witness:
  "one_pending_per_pair (run [CreateSwap 1 10 None Points (Some 300) None,
                              CreateSwap 1 11 None Points (Some 300) None] example_pending_db)
   \<and> fst (createSwap 1 10 None Points (Some 300) None example_pending_db) = Inl DuplicateRequest
   \<and> exec (CreateSwap 1 10 None Points (Some 300) None) example_pending_db = example_pending_db"
proof -
  have a: "one_pending_per_pair example_pending_db" by code_simp
  have b: "\<exists>sw \<in> set (swaps example_pending_db).
             requester sw = 1 \<and> requestedItem sw = 10 \<and> status sw = Pending"
    by code_simp
  have c: "users example_pending_db 1 = Some \<lparr>points = 300, itemsCount = 1, swapsCount = 0\<rparr>"
    by code_simp
  have e: "case Some (300::int) of None \<Rightarrow> True | Some p \<Rightarrow> 1 \<le> p" by simp
  have f: "maxLength 500 None" by code_simp
  have g: "create_precheck \<lparr>points = 300, itemsCount = 1, swapsCount = 0\<rparr> 1 10 None Points (Some 300)
             example_pending_db = None"
    by code_simp
  from one_pending_swap_per_pair [of example_pending_db _ 1 10 None Points "Some 300" None]
    a b c e f g
  show ?thesis by blast
qed


text \<open>
  Without that restriction two pending swaps for one pair can exist.  User 1 sends the
  same create request twice; the second handler runs while the first has passed the
  duplicate check and not yet saved.  Both find no pending swap and both save one.
\<close>

theorem two_pending_when_overlapped:
  "one_pending_per_pair example_db
   \<and> map status (swaps (exec_writes
         (overlapped_writes (CreateSwap 1 10 None Points (Some 300) None) 0
                            (CreateSwap 1 10 None Points (Some 300) None) example_db)
         example_db)) = [Pending, Pending]
   \<and> map requester (swaps (exec_writes
         (overlapped_writes (CreateSwap 1 10 None Points (Some 300) None) 0
                            (CreateSwap 1 10 None Points (Some 300) None) example_db)
         example_db)) = [1, 1]
   \<and> map requestedItem (swaps (exec_writes
         (overlapped_writes (CreateSwap 1 10 None Points (Some 300) None) 0
                            (CreateSwap 1 10 None Points (Some 300) None) example_db)
         example_db)) = [10, 10]
   \<and> \<not> one_pending_per_pair (exec_writes
         (overlapped_writes (CreateSwap 1 10 None Points (Some 300) None) 0
                            (CreateSwap 1 10 None Points (Some 300) None) example_db)
         example_db)"
  by code_simp

section \<open>Accepting a swap whose requested item is no longer available\<close>

text \<open>
  C7.  When the requested item of a pending swap has \<open>isAvailable = false\<close>, an accept by
  its owner still succeeds: the response is the swap in status accepted, the stored swap
  is accepted, for a points swap the points are transferred and the bonus is paid, and for
  a direct swap every existing offered item is marked unavailable.
\<close>

theorem respond_accept_unavailable_item:
  assumes "users d uid = Some ownerDoc" and "maxLength 500 responseMsg"
    and "findSwap d sid = Some sw" and "status sw = Pending"
    and "items d (requestedItem sw) = Some ritem" and "owner ritem = uid"
    and "\<not> isAvailable ritem"
  shows "(\<exists>sw'. fst (respond uid sid Accept responseMsg txnId d) = Inr sw' \<and> status sw' = Accepted)
       \<and> status_of (exec (Respond uid sid Accept responseMsg txnId) d) sid = Some Accepted
       \<and> (swapType sw = Points \<longrightarrow> requester sw \<noteq> uid \<longrightarrow>
            (\<forall>requesterDoc. users d (requester sw) = Some requesterDoc \<longrightarrow>
               points_of (exec (Respond uid sid Accept responseMsg txnId) d) (requester sw)
                 = Some (points requesterDoc - pointsOffered sw + 100)
             \<and> points_of (exec (Respond uid sid Accept responseMsg txnId) d) uid
                 = Some (points ownerDoc + pointsOffered sw + 100)))
       \<and> (swapType sw = Direct \<longrightarrow>
            (\<forall>i \<in> set (offeredItems sw). items d i \<noteq> None \<longrightarrow>
               available_of (exec (Respond uid sid Accept responseMsg txnId) d) i = Some False))"
proof -
  from assms have r: "respond uid sid Accept responseMsg txnId d =
      (if swapType sw = Points then accept_points sid sw ritem responseMsg txnId
       else accept_direct sid sw ritem responseMsg d)"
    by (simp add: respond_def)
  from assms(3) have lt: "sid < length (swaps d)" by (simp add: findSwap_Some)
  have 1: "\<exists>sw'. fst (respond uid sid Accept responseMsg txnId d) = Inr sw' \<and> status sw' = Accepted"
    by (simp add: r accept_points_def accept_direct_def Let_def)
  obtain res ws where rw: "respond uid sid Accept responseMsg txnId d = (res, ws)"
    by (cases "respond uid sid Accept responseMsg txnId d")
  have "\<exists>sw'. swaps (exec_writes ws d) = (swaps d)[sid := sw'] \<and> status sw' = Accepted"
  proof (cases "swapType sw = Points")
    case True
    with r rw have "accept_points sid sw ritem responseMsg txnId = (res, ws)" by simp
    from accept_points_swaps [OF this, of d] show ?thesis by blast
  next
    case False
    with r rw have "accept_direct sid sw ritem responseMsg d = (res, ws)" by simp
    from accept_direct_swaps [OF this] show ?thesis by blast
  qed
  with rw lt have 2: "status_of (exec (Respond uid sid Accept responseMsg txnId) d) sid = Some Accepted"
    by (auto simp: status_of_def findSwap_def exec_def)
  have 3: "swapType sw = Points \<longrightarrow> requester sw \<noteq> uid \<longrightarrow>
            (\<forall>requesterDoc. users d (requester sw) = Some requesterDoc \<longrightarrow>
               points_of (exec (Respond uid sid Accept responseMsg txnId) d) (requester sw)
                 = Some (points requesterDoc - pointsOffered sw + 100)
             \<and> points_of (exec (Respond uid sid Accept responseMsg txnId) d) uid
                 = Some (points ownerDoc + pointsOffered sw + 100))"
    using assms by (simp add: exec_def r accept_points_def points_of_def Let_def)
  have 4: "swapType sw = Direct \<longrightarrow>
            (\<forall>i \<in> set (offeredItems sw). items d i \<noteq> None \<longrightarrow>
               available_of (exec (Respond uid sid Accept responseMsg txnId) d) i = Some False)"
  proof (intro impI ballI)
    fix i assume dir: "swapType sw = Direct" and i: "i \<in> set (offeredItems sw)" and ex: "items d i \<noteq> None"
    let ?ids = "populated (items d) (offeredItems sw)"
    let ?d1 = "apply_write (SetItemUnavailable (requestedItem sw)) d"
    let ?d2 = "exec_writes (map SetItemUnavailable ?ids) ?d1"
    from i ex have mem: "i \<in> set ?ids" by (simp add: populated_def)
    from ex assms(5) have ex1: "items ?d1 i \<noteq> None" by auto
    have "map_option isAvailable (items ?d2 i) = Some False"
      using mem ex1 by (auto simp: items_unavailable_all)
    moreover have "items (exec (Respond uid sid Accept responseMsg txnId) d) = items ?d2"
      using dir by (simp add: exec_def r accept_direct_def Let_def exec_writes_append split: option.splits)
    ultimately show "available_of (exec (Respond uid sid Accept responseMsg txnId) d) i = Some False"
      by (simp add: available_of_def)
  qed
  from 1 2 3 4 show ?thesis by blast
qed

text \<open>The theorem on the example: item 10 is already unavailable when user 2 accepts.\<close>

theorem respond_accept_unavailable_item_witness:
  "available_of example_unavailable_db 10 = Some False
   \<and> status_of (exec (Respond 2 0 Accept None ''TXN_1'') example_unavailable_db) 0 = Some Accepted
   \<and> points_of (exec (Respond 2 0 Accept None ''TXN_1'') example_unavailable_db) 1 = Some 100
   \<and> points_of (exec (Respond 2 0 Accept None ''TXN_1'') example_unavailable_db) 2 = Some 450"
proof -
  have a: "users example_unavailable_db 2 = Some \<lparr>points = 50, itemsCount = 2, swapsCount = 0\<rparr>"
    by code_simp
  have b: "maxLength 500 None" by code_simp
  have c: "findSwap example_unavailable_db 0 = Some example_points_swap" by code_simp
  have e: "status example_points_swap = Pending" by code_simp
  have f: "items example_unavailable_db (requestedItem example_points_swap)
             = Some (example_item\<lparr>isAvailable := False\<rparr>)" by code_simp
  have g: "owner (example_item\<lparr>isAvailable := False\<rparr>) = 2" by code_simp
  have h: "\<not> isAvailable (example_item\<lparr>isAvailable := False\<rparr>)" by simp
  have i: "swapType example_points_swap = Points" "requester example_points_swap \<noteq> 2" by code_simp+
  have j: "users example_unavailable_db (requester example_points_swap)
             = Some \<lparr>points = 300, itemsCount = 1, swapsCount = 0\<rparr>" by code_simp
  have k: "requester example_points_swap = 1" "pointsOffered example_points_swap = 300"
    by code_simp+
  have l: "available_of example_unavailable_db 10 = Some False" by code_simp
  from respond_accept_unavailable_item [OF a b c e f g h, of "''TXN_1''"] i j k l
  show ?thesis by simp
qed

section \<open>Toggling a like twice\<close>

text \<open>
  C10 (as amended).  For an item whose \<open>likedBy\<close> has no duplicate entries, two successive
  \<open>toggleLike\<close> calls by one user restore the \<open>likes\<close> counter and restore the user's
  membership of \<open>likedBy\<close>: a user who had not liked the item is absent again, a user who
  had liked it is present again.  A single call removes the user and decrements \<open>likes\<close>
  when the user is in \<open>likedBy\<close>, and otherwise appends the user and increments \<open>likes\<close>;
  it keeps \<open>likedBy\<close> free of duplicates.  The function is total: no call fails.
\<close>

theorem toggleLike_twice:
  assumes "distinct (likedBy it)"
  shows "likes (toggleLike userId (toggleLike userId it)) = likes it
       \<and> isLikedBy (toggleLike userId (toggleLike userId it)) userId = isLikedBy it userId
       \<and> distinct (likedBy (toggleLike userId it))
       \<and> (if isLikedBy it userId
          then toggleLike userId it = it\<lparr>likes := likes it - 1, likedBy := remove1 userId (likedBy it)\<rparr>
          else toggleLike userId it = it\<lparr>likes := likes it + 1, likedBy := likedBy it @ [userId]\<rparr>)"
proof (cases "userId \<in> set (likedBy it)")
  case True
  from assms True have gone: "userId \<notin> set (remove1 userId (likedBy it))" by simp
  from True have one: "toggleLike userId it = it\<lparr>likes := likes it - 1, likedBy := remove1 userId (likedBy it)\<rparr>"
    by (rule toggleLike_present)
  from gone have two: "toggleLike userId (toggleLike userId it) =
      it\<lparr>likes := likes it - 1 + 1, likedBy := remove1 userId (likedBy it) @ [userId]\<rparr>"
    by (simp add: one toggleLike_absent)
  from assms True one two show ?thesis by (simp add: isLikedBy_def)
next
  case False
  from False have one: "toggleLike userId it = it\<lparr>likes := likes it + 1, likedBy := likedBy it @ [userId]\<rparr>"
    by (rule toggleLike_absent)
  from False have two: "toggleLike userId (toggleLike userId it) = it"
    by (simp add: one toggleLike_present remove1_append_single)
  from assms False one two show ?thesis by (simp add: isLikedBy_def)
qed


text \<open>The theorem on the example item, for user 3 who has not liked it.\<close>

theorem toggleLike_twice_witness:
  "likes (toggleLike 3 (toggleLike 3 example_item)) = 1
   \<and> \<not> isLikedBy (toggleLike 3 (toggleLike 3 example_item)) 3"
proof -
  have a: "distinct (likedBy example_item)" by code_simp
  have b: "likes example_item = 1" by code_simp
  have c: "\<not> isLikedBy example_item 3" by code_simp
  note t = toggleLike_twice [OF a, of 3]
  from t have "likes (toggleLike 3 (toggleLike 3 example_item)) = likes example_item"
    by (rule conjunct1)
  then have 1: "likes (toggleLike 3 (toggleLike 3 example_item)) = 1"
    by (simp only: b)
  from t have "isLikedBy (toggleLike 3 (toggleLike 3 example_item)) 3 = isLikedBy example_item 3"
    by (rule conjunct2 [THEN conjunct1])
  with c have 2: "\<not> isLikedBy (toggleLike 3 (toggleLike 3 example_item)) 3"
    by blast
  from 1 2 show ?thesis by (rule conjI)
qed


text \<open>
  User 7 has liked the example item: after two calls the counter is restored and user 7
  is in \<open>likedBy\<close> again.
\<close>

theorem toggleLike_twice_still_liked:
  "isLikedBy example_item 7 \<and> likes (toggleLike 7 (toggleLike 7 example_item)) = likes example_item
   \<and> isLikedBy (toggleLike 7 (toggleLike 7 example_item)) 7"
  by code_simp


end
